theory Spec2Isabelle
  imports Main
begin

section \<open>The test-catalog formatter (.github/scripts/format-test-catalog.py)\<close>

text \<open>
  The script expands glob patterns into a list of YAML files, parses each file and writes
  one line \<open>class#method\<close> per method to an output file, counting classes and methods.
  The model follows the script line by line. What the script takes from libraries
  (\<open>glob\<close>, \<open>open\<close>, \<open>yaml.safe_load\<close>, the encoding of the output file, \<open>repr\<close>) is a
  field of the record \<open>world\<close>; every exception the script can meet is a value of
  \<open>error\<close>.
\<close>

subsection \<open>Python values\<close>

text \<open>
  A Python \<open>str\<close> is the list of its code points; \<open>text_of\<close> gives the \<open>str\<close> of a
  literal. Paths and patterns, which the script only passes on, stay \<open>string\<close>s.
\<close>

type_synonym pystr = "nat list"

definition text_of :: "string \<Rightarrow> pystr" where
  "text_of s = map of_char s"

text \<open>
  The objects \<open>yaml.safe_load\<close> builds. A dict is the list of its items in insertion
  order (its keys are distinct). A float and a date are carried as the text \<open>str()\<close>
  gives them; the elements of a set are listed in iteration order.
\<close>

datatype pyval =
    PNone
  | PBool bool
  | PInt int
  | PFloat pystr
  | PDate pystr
  | PStr pystr
  | PBytes "nat list"
  | PList "pyval list"
  | PSet "pyval list"
  | PDict "(pyval \<times> pyval) list"

datatype error = OSError | YAMLError | AttributeError | TypeError | UnicodeEncodeError

type_synonym path = string

text \<open>
  \<open>glob w p\<close> is \<open>glob(pathname=p, recursive=True)\<close>; \<open>load w f\<close> is what
  \<open>open(f, "r")\<close> followed by \<open>yaml.safe_load\<close> gives during the run (\<open>OSError\<close> when
  the file cannot be opened, \<open>YAMLError\<close> when its text is not YAML);
  \<open>writable w f\<close> says that \<open>open(f, "w")\<close> succeeds and that the device takes what is
  written; \<open>encodable w t\<close> says that the encoding of the output file, which is the
  default of the platform with strict error handling, can encode the text \<open>t\<close>;
  \<open>repr_text w v\<close> is the text of \<open>str(v)\<close> for the container objects, whose elements
  Python prints with \<open>repr\<close>.
\<close>

record world =
  glob :: "string \<Rightarrow> path list"
  load :: "path \<Rightarrow> error + pyval"
  writable :: "path \<Rightarrow> bool"
  encodable :: "pystr \<Rightarrow> bool"
  repr_text :: "pyval \<Rightarrow> pystr"

text \<open>The text files the run can change, by path, each with its text.\<close>

type_synonym store = "path \<rightharpoonup> pystr"

text \<open>The code points of the line feed and of \<open>#\<close>.\<close>

definition newline :: nat where
  "newline = 10"

definition hash_sign :: nat where
  "hash_sign = 35"

subsection \<open>Built-ins: \<open>str()\<close>, iteration, \<open>.items()\<close>\<close>

function nat_digits :: "nat \<Rightarrow> pystr" where
  "nat_digits n = (if n < 10 then [48 + n] else nat_digits (n div 10) @ [48 + n mod 10])"
  by pat_completeness auto
termination
  by (relation "measure (\<lambda>n. n)") auto

definition int_str :: "int \<Rightarrow> pystr" where
  "int_str i = (if i < 0 then 45 # nat_digits (nat (- i)) else nat_digits (nat i))"

text \<open>
  \<open>f"{v}"\<close> formats \<open>v\<close> with \<open>str(v)\<close>: a \<open>str\<close> is itself, \<open>None\<close>, the booleans and
  the integers have their literal text (the interpreter's optional limit on the number of
  digits is left out).
\<close>

fun py_str :: "world \<Rightarrow> pyval \<Rightarrow> pystr" where
  "py_str w (PStr s) = s"
| "py_str w PNone = text_of ''None''"
| "py_str w (PBool b) = (if b then text_of ''True'' else text_of ''False'')"
| "py_str w (PInt i) = int_str i"
| "py_str w (PFloat t) = t"
| "py_str w (PDate t) = t"
| "py_str w v = repr_text w v"

text \<open>
  \<open>for method in methods\<close>: a list gives its elements, a dict its keys, a \<open>str\<close> its
  characters (each a \<open>str\<close> of length one), \<open>bytes\<close> its integers; \<open>None\<close>, booleans
  and numbers are not iterable and raise \<open>TypeError\<close>.
\<close>

fun py_iter :: "pyval \<Rightarrow> error + pyval list" where
  "py_iter (PList xs) = Inr xs"
| "py_iter (PSet xs) = Inr xs"
| "py_iter (PDict kvs) = Inr (map fst kvs)"
| "py_iter (PStr s) = Inr (map (\<lambda>c. PStr [c]) s)"
| "py_iter (PBytes bs) = Inr (map (\<lambda>b. PInt (int b)) bs)"
| "py_iter v = Inl TypeError"

text \<open>\<open>tests.items()\<close>: only a dict has the attribute.\<close>

fun py_items :: "pyval \<Rightarrow> error + (pyval \<times> pyval) list" where
  "py_items (PDict kvs) = Inr kvs"
| "py_items v = Inl AttributeError"

subsection \<open>\<open>yaml_to_all_tests\<close>\<close>

text \<open>
  The two counters and the arguments of the calls of \<open>fp.write\<close> that returned, in
  order. The text of the output file is their concatenation.
\<close>

record state =
  class_count :: nat
  method_count :: nat
  written :: "pystr list"

datatype outcome = Done state | Raised error state

fun state_of :: "outcome \<Rightarrow> state" where
  "state_of (Done s) = s"
| "state_of (Raised e s) = s"

definition init_state :: state where
  "init_state = \<lparr>class_count = 0, method_count = 0, written = []\<rparr>"

text \<open>Lines 35-36: \<open>for path in glob_paths: yamls.extend(glob(...))\<close>.\<close>

fun expand_globs :: "world \<Rightarrow> string list \<Rightarrow> path list \<Rightarrow> path list" where
  "expand_globs w [] yamls = yamls"
| "expand_globs w (p # glob_paths) yamls = expand_globs w glob_paths (yamls @ glob w p)"

text \<open>
  Lines 47-49: the loop over the methods of one class. The counter is incremented on
  line 48; \<open>fp.write\<close> on line 49 encodes the line and raises \<open>UnicodeEncodeError\<close>,
  writing nothing of it, when the encoding of the file cannot encode it.
\<close>

fun write_methods :: "world \<Rightarrow> pyval \<Rightarrow> pyval list \<Rightarrow> state \<Rightarrow> outcome" where
  "write_methods w clazz [] s = Done s"
| "write_methods w clazz (method # methods) s =
     (let s1 = s\<lparr>method_count := method_count s + 1\<rparr>;
          line = py_str w clazz @ [hash_sign] @ py_str w method @ [newline]
      in if encodable w line
         then write_methods w clazz methods (s1\<lparr>written := written s1 @ [line]\<rparr>)
         else Raised UnicodeEncodeError s1)"

text \<open>Lines 45-49: the loop over the items of one parsed file.\<close>

fun class_loop :: "world \<Rightarrow> (pyval \<times> pyval) list \<Rightarrow> state \<Rightarrow> outcome" where
  "class_loop w [] s = Done s"
| "class_loop w ((clazz, methods) # items) s =
     (let s1 = s\<lparr>class_count := class_count s + 1\<rparr>
      in case py_iter methods of
           Inl e \<Rightarrow> Raised e s1
         | Inr ms \<Rightarrow>
             (case write_methods w clazz ms s1 of
                Raised e s2 \<Rightarrow> Raised e s2
              | Done s2 \<Rightarrow> class_loop w items s2))"

text \<open>Lines 42-49: the loop over the resolved files.\<close>

fun file_loop :: "world \<Rightarrow> path list \<Rightarrow> state \<Rightarrow> outcome" where
  "file_loop w [] s = Done s"
| "file_loop w (yaml_file # yamls) s =
     (case load w yaml_file of
        Inl e \<Rightarrow> Raised e s
      | Inr tests \<Rightarrow>
          (case py_items tests of
             Inl e \<Rightarrow> Raised e s
           | Inr items \<Rightarrow>
               (case class_loop w items s of
                  Raised e s' \<Rightarrow> Raised e s'
                | Done s' \<Rightarrow> file_loop w yamls s')))"

text \<open>
  Lines 32-51. The patterns are expanded first; then the output file is opened for
  writing, which truncates it. The \<open>with\<close> statement closes the file when the block is
  left, also by an exception, so the file then holds everything written. When the file
  cannot be opened nothing is changed. The outcome of a run that completes carries the
  two totals of the last log line.
\<close>

definition yaml_to_all_tests :: "world \<Rightarrow> string list \<Rightarrow> path \<Rightarrow> store \<Rightarrow> outcome \<times> store" where
  "yaml_to_all_tests w glob_paths out_file fs =
     (let yamls = expand_globs w glob_paths []
      in if \<not> writable w out_file then (Raised OSError init_state, fs)
         else (case file_loop w yamls init_state of
                 Done s \<Rightarrow> (Done s, fs(out_file \<mapsto> concat (written s)))
               | Raised e s \<Rightarrow> (Raised e s, fs(out_file \<mapsto> concat (written s)))))"

subsection \<open>What the specification says of a well-formed catalog\<close>

text \<open>
  A catalog maps class names to sequences of method names; \<open>catalog_value\<close> is the
  Python value a well-formed catalog file parses to. \<open>record_line\<close> is the output record,
  \<open>catalog_lines\<close> the records of one catalog in key order, then element order.
\<close>

type_synonym catalog = "(pystr \<times> pystr list) list"

definition catalog_value :: "catalog \<Rightarrow> pyval" where
  "catalog_value cat = PDict (map (\<lambda>(c, ms). (PStr c, PList (map PStr ms))) cat)"

definition record_line :: "pystr \<Rightarrow> pystr \<Rightarrow> pystr" where
  "record_line c m = c @ [hash_sign] @ m @ [newline]"

definition catalog_lines :: "catalog \<Rightarrow> pystr list" where
  "catalog_lines cat = concat (map (\<lambda>(c, ms). map (record_line c) ms) cat)"

definition method_total :: "catalog \<Rightarrow> nat" where
  "method_total cat = sum_list (map (\<lambda>(c, ms). length ms) cat)"

text \<open>The number of lines of a text: the number of its newline characters.\<close>

definition line_count :: "pystr \<Rightarrow> nat" where
  "line_count t = count_list t newline"

text \<open>
  The number of class keys of a resolved file, and whether a parsed value makes the
  loops of lines 45-49 raise whatever the names are: anything but a dict has no
  \<open>items\<close>, and a dict value that is not iterable stops the inner loop.
\<close>

definition key_count :: "world \<Rightarrow> path \<Rightarrow> nat" where
  "key_count w f = (case load w f of Inr (PDict kvs) \<Rightarrow> length kvs | _ \<Rightarrow> 0)"

definition not_iterable :: "pyval \<Rightarrow> bool" where
  "not_iterable v = (case py_iter v of Inl e \<Rightarrow> True | Inr xs \<Rightarrow> False)"

fun raising_shape :: "pyval \<Rightarrow> bool" where
  "raising_shape (PDict kvs) = list_ex (\<lambda>(k, v). not_iterable v) kvs"
| "raising_shape v = True"

text \<open>
  What the counters are said to be at a point of the run: the class counter is the number
  \<open>n\<close> of class keys met so far, the method counter is the number of lines of the text
  written so far.
\<close>

definition counters_agree :: "nat \<Rightarrow> state \<Rightarrow> bool" where
  "counters_agree n s =
     (class_count s = n \<and> method_count s = line_count (concat (written s)))"

text \<open>
  The state \<open>d\<close> of a run that started with zero counters and nothing written, moved to
  a start in the state \<open>s\<close>.
\<close>

definition shift :: "state \<Rightarrow> state \<Rightarrow> state" where
  "shift s d =
     \<lparr>class_count = class_count s + class_count d,
      method_count = method_count s + method_count d,
      written = written s @ written d\<rparr>"

fun shift_outcome :: "state \<Rightarrow> outcome \<Rightarrow> outcome" where
  "shift_outcome s (Done d) = Done (shift s d)"
| "shift_outcome s (Raised e d) = Raised e (shift s d)"

text \<open>
  The state \<open>s'\<close> comes after \<open>s\<close> in a run: more lines were written behind those of
  \<open>s\<close>, and the method counter went up by their number.
\<close>

definition extends :: "state \<Rightarrow> state \<Rightarrow> bool" where
  "extends s s' =
     (\<exists>ext. written s' = written s @ ext \<and> method_count s' = method_count s + length ext)"

subsection \<open>The command line (lines 54-76)\<close>

text \<open>
  \<open>parse_args\<close> returns a namespace with the attributes \<open>path\<close> (the values of the
  \<open>--path\<close> options in order, \<open>None\<close> when there is none) and \<open>output_file\<close>. Reading
  an attribute the namespace does not have raises \<open>AttributeError\<close>. The record \<open>cli\<close>
  holds the options of a command line that \<open>argparse\<close> accepts.
\<close>

datatype attr = ANone | AStr string | AStrs "string list"

type_synonym namespace = "string \<rightharpoonup> attr"

record cli =
  path_args :: "string list"
  output_file_arg :: "string option"

definition parse_args :: "cli \<Rightarrow> namespace" where
  "parse_args c =
     [''path'' \<mapsto> (if path_args c = [] then ANone else AStrs (path_args c)),
      ''output_file'' \<mapsto> (case output_file_arg c of
                              None \<Rightarrow> AStr ''combined-test-catalog.txt''
                            | Some f \<Rightarrow> AStr f)]"

definition getattr :: "namespace \<Rightarrow> string \<Rightarrow> error + attr" where
  "getattr ns a = (case ns a of None \<Rightarrow> Inl AttributeError | Some v \<Rightarrow> Inr v)"

text \<open>How the process ends: \<open>exit(n)\<close>, or an exception nobody catches (status 1).\<close>

datatype ending = Exit nat | Uncaught error

fun exit_status :: "ending \<Rightarrow> nat" where
  "exit_status (Exit n) = n"
| "exit_status (Uncaught e) = 1"

text \<open>
  The call of line 76 with the attributes as they are: a \<open>path\<close> that is \<open>None\<close> is not
  iterable, a \<open>str\<close> is iterated by character; an output file that is not a \<open>str\<close> is
  refused by \<open>open\<close>. An exception of the call is caught nowhere, and the end of the
  script is the exit with status 0.
\<close>

fun call_yaml_to_all_tests :: "world \<Rightarrow> attr \<Rightarrow> attr \<Rightarrow> store \<Rightarrow> ending \<times> store" where
  "call_yaml_to_all_tests w ANone out fs = (Uncaught TypeError, fs)"
| "call_yaml_to_all_tests w (AStr p) (AStr out) fs =
     (case yaml_to_all_tests w (map (\<lambda>c. [c]) p) out fs of
        (Done s, fs') \<Rightarrow> (Exit 0, fs')
      | (Raised e s, fs') \<Rightarrow> (Uncaught e, fs'))"
| "call_yaml_to_all_tests w (AStrs ps) (AStr out) fs =
     (case yaml_to_all_tests w ps out fs of
        (Done s, fs') \<Rightarrow> (Exit 0, fs')
      | (Raised e s, fs') \<Rightarrow> (Uncaught e, fs'))"
| "call_yaml_to_all_tests w p out fs = (Uncaught TypeError, fs)"

text \<open>
  Lines 67-76. The guard on \<open>GITHUB_WORKSPACE\<close> comes first (an unset or empty variable
  is false). Line 73 stores the default pattern when no \<open>--path\<close> was given. Line 74
  reads \<open>args.paths\<close>, its value being used for \<open>glob_paths\<close>, a variable nothing reads.
\<close>

definition main :: "world \<Rightarrow> (string \<rightharpoonup> string) \<Rightarrow> cli \<Rightarrow> store \<Rightarrow> ending \<times> store" where
  "main w env c fs =
     (if env ''GITHUB_WORKSPACE'' = None \<or> env ''GITHUB_WORKSPACE'' = Some [] then (Exit 1, fs)
      else
        let args = parse_args c;
            args = (if args ''path'' = Some ANone
                    then args(''path'' \<mapsto> AStrs [''test-catalog/**/*.yaml''])
                    else args)
        in case getattr args ''paths'' of
             Inl e \<Rightarrow> (Uncaught e, fs)
           | Inr paths \<Rightarrow>
               (case getattr args ''path'' of
                  Inl e \<Rightarrow> (Uncaught e, fs)
                | Inr p \<Rightarrow>
                    (case getattr args ''output_file'' of
                       Inl e \<Rightarrow> (Uncaught e, fs)
                     | Inr out \<Rightarrow> call_yaml_to_all_tests w p out fs)))"

subsection \<open>Concrete inputs\<close>

text \<open>
  Two encodings: UTF-8 encodes every code point but the surrogates, ASCII the code points
  below 128.
\<close>

definition utf8_encodable :: "pystr \<Rightarrow> bool" where
  "utf8_encodable t = list_all (\<lambda>c. c < 0xD800 \<or> (0xDFFF < c \<and> c \<le> 0x10FFFF)) t"

definition ascii_encodable :: "pystr \<Rightarrow> bool" where
  "ascii_encodable t = list_all (\<lambda>c. c < 128) t"

text \<open>
  A world given by two tables: the files each pattern matches, and what each file parses
  to. A pattern that is not listed matches nothing, a file that is not listed cannot be
  opened, every output file can be written, and the output encoding is UTF-8.
\<close>

definition files_world :: "(string \<times> path list) list \<Rightarrow> (path \<times> (error + pyval)) list \<Rightarrow> world" where
  "files_world globs files =
     \<lparr>glob = (\<lambda>p. case map_of globs p of None \<Rightarrow> [] | Some fs \<Rightarrow> fs),
      load = (\<lambda>f. case map_of files f of None \<Rightarrow> Inl OSError | Some r \<Rightarrow> r),
      writable = (\<lambda>f. True),
      encodable = utf8_encodable,
      repr_text = (\<lambda>v. [])\<rparr>"

definition single_file_world :: world where
  "single_file_world =
     files_world [(''test-catalog/**/*.yaml'', [''test-catalog/core.yaml''])]
       [(''test-catalog/core.yaml'',
         Inr (PDict [(PStr (text_of ''Foo''), PList [PStr (text_of ''a''), PStr (text_of ''b'')])]))]"

definition single_file_catalog :: "path \<Rightarrow> catalog" where
  "single_file_catalog f = [(text_of ''Foo'', [text_of ''a'', text_of ''b''])]"

text \<open>The file \<open>{"Foo": ["a\nb"]}\<close>.\<close>

definition newline_world :: world where
  "newline_world =
     files_world [(''test-catalog/**/*.yaml'', [''test-catalog/core.yaml''])]
       [(''test-catalog/core.yaml'',
         Inr (PDict [(PStr (text_of ''Foo''), PList [PStr (text_of ''a\<newline>b'')])]))]"

text \<open>
  The file \<open>{"Foo": ["\u00e9"]}\<close>, whose method name is the one character U+00E9, on
  a platform whose default encoding is ASCII.
\<close>

definition ascii_world :: world where
  "ascii_world =
     (files_world [(''test-catalog/**/*.yaml'', [''test-catalog/core.yaml''])]
        [(''test-catalog/core.yaml'', Inr (PDict [(PStr (text_of ''Foo''), PList [PStr [233]])]))])
     \<lparr>encodable := ascii_encodable\<rparr>"

definition duplicate_world :: world where
  "duplicate_world =
     files_world
       [(''test-catalog/**/*.yaml'', [''test-catalog/core/tests.yaml'', ''test-catalog/clients/tests.yaml'']),
        (''test-catalog/core/*.yaml'', [''test-catalog/core/tests.yaml''])]
       [(''test-catalog/core/tests.yaml'', Inr (PDict [(PStr (text_of ''Foo''), PList [PStr (text_of ''a'')])])),
        (''test-catalog/clients/tests.yaml'', Inr (PDict [(PStr (text_of ''Foo''), PList [PStr (text_of ''a'')])]))]"

definition str_value_world :: world where
  "str_value_world =
     files_world [(''test-catalog/**/*.yaml'', [''test-catalog/core.yaml''])]
       [(''test-catalog/core.yaml'', Inr (PDict [(PStr (text_of ''Foo''), PStr (text_of ''ab''))]))]"

definition int_value_world :: world where
  "int_value_world =
     files_world [(''test-catalog/**/*.yaml'', [''test-catalog/core.yaml''])]
       [(''test-catalog/core.yaml'', Inr (PDict [(PStr (text_of ''Foo''), PInt 3)]))]"

definition malformed_world :: world where
  "malformed_world =
     files_world
       [(''test-catalog/**/*.yaml'', [''test-catalog/core.yaml'', ''test-catalog/broken.yaml''])]
       [(''test-catalog/core.yaml'', Inr (PDict [(PStr (text_of ''Foo''), PList [PStr (text_of ''a'')])])),
        (''test-catalog/broken.yaml'', Inl YAMLError)]"

definition empty_sequence_world :: world where
  "empty_sequence_world =
     files_world [(''test-catalog/**/*.yaml'', [''test-catalog/core.yaml''])]
       [(''test-catalog/core.yaml'',
         Inr (PDict [(PStr (text_of ''Foo''), PList []), (PStr (text_of ''Bar''), PList [])]))]"

definition null_world :: world where
  "null_world =
     files_world [(''test-catalog/**/*.yaml'', [''test-catalog/empty.yaml''])]
       [(''test-catalog/empty.yaml'', Inr PNone)]"

definition no_match_world :: world where
  "no_match_world = files_world [] []"

section \<open>Properties\<close>

lemmas world_simps =
  files_world_def utf8_encodable_def text_of_def newline_def hash_sign_def

lemma expand_globs_acc: "expand_globs w ps acc = acc @ concat (map (glob w) ps)"
  by (induction ps arbitrary: acc) auto

lemma run_writable:
  "writable w out_file \<Longrightarrow>
   yaml_to_all_tests w glob_paths out_file fs =
     (case file_loop w (expand_globs w glob_paths []) init_state of
        Done s \<Rightarrow> (Done s, fs(out_file \<mapsto> concat (written s)))
      | Raised e s \<Rightarrow> (Raised e s, fs(out_file \<mapsto> concat (written s))))"
  by (simp add: yaml_to_all_tests_def)

subsection \<open>Well-formed catalogs\<close>

lemma write_methods_strs:
  "\<forall>m \<in> set ms. encodable w (record_line c m) \<Longrightarrow>
   write_methods w (PStr c) (map PStr ms) s =
     Done (s\<lparr>method_count := method_count s + length ms,
             written := written s @ map (record_line c) ms\<rparr>)"
  by (induction ms arbitrary: s) (auto simp: record_line_def)

lemma class_loop_catalog:
  "\<forall>(c, ms) \<in> set cat. \<forall>m \<in> set ms. encodable w (record_line c m) \<Longrightarrow>
   class_loop w (map (\<lambda>(c, ms). (PStr c, PList (map PStr ms))) cat) s =
     Done (s\<lparr>class_count := class_count s + length cat,
             method_count := method_count s + method_total cat,
             written := written s @ catalog_lines cat\<rparr>)"
proof (induction cat arbitrary: s)
  case Nil
  show ?case by (simp add: method_total_def catalog_lines_def)
next
  case (Cons a cat)
  obtain c ms where a: "a = (c, ms)" by (cases a)
  have here: "\<forall>m \<in> set ms. encodable w (record_line c m)"
    using Cons.prems by (simp add: a)
  have rest: "\<forall>(c, ms) \<in> set cat. \<forall>m \<in> set ms. encodable w (record_line c m)"
    using Cons.prems by simp
  show ?case
    by (simp add: a Cons.IH [OF rest] write_methods_strs [OF here] method_total_def
        catalog_lines_def)
qed

lemma file_loop_catalogs:
  assumes "\<forall>f \<in> set yamls. load w f = Inr (catalog_value (cat f))"
    and "\<forall>f \<in> set yamls. \<forall>(c, ms) \<in> set (cat f). \<forall>m \<in> set ms. encodable w (record_line c m)"
  shows "file_loop w yamls s =
     Done (s\<lparr>class_count := class_count s + sum_list (map (\<lambda>f. length (cat f)) yamls),
             method_count := method_count s + sum_list (map (\<lambda>f. method_total (cat f)) yamls),
             written := written s @ concat (map (\<lambda>f. catalog_lines (cat f)) yamls)\<rparr>)"
  using assms
proof (induction yamls arbitrary: s)
  case Nil
  show ?case by simp
next
  case (Cons f yamls)
  have f: "load w f = Inr (catalog_value (cat f))" using Cons.prems(1) by simp
  have enc: "\<forall>(c, ms) \<in> set (cat f). \<forall>m \<in> set ms. encodable w (record_line c m)"
    using Cons.prems(2) by simp
  have rest: "\<forall>g \<in> set yamls. load w g = Inr (catalog_value (cat g))"
    using Cons.prems(1) by simp
  have rest_enc: "\<forall>g \<in> set yamls. \<forall>(c, ms) \<in> set (cat g). \<forall>m \<in> set ms. encodable w (record_line c m)"
    using Cons.prems(2) by simp
  show ?case
    by (simp add: f catalog_value_def class_loop_catalog [OF enc] Cons.IH [OF rest rest_enc])
qed

text \<open>
  C1, as the code has it. When the output file can be opened, every resolved file parses
  to a well-formed catalog and the encoding of the output file can encode every record,
  the run completes and the output file holds exactly the concatenation of the lines
  \<open>class#method\<close>, each ended by a newline, in the order of the resolved files, then of
  the keys of each file, then of the elements of each sequence.
\<close>

theorem yaml_to_all_tests_output:
  assumes "writable w out_file"
    and "\<forall>f \<in> set (expand_globs w glob_paths []). load w f = Inr (catalog_value (cat f))"
    and "\<forall>f \<in> set (expand_globs w glob_paths []).
           \<forall>(c, ms) \<in> set (cat f). \<forall>m \<in> set ms. encodable w (record_line c m)"
  shows "(\<exists>s. fst (yaml_to_all_tests w glob_paths out_file fs) = Done s) \<and>
         snd (yaml_to_all_tests w glob_paths out_file fs) out_file =
           Some (concat (concat (map (\<lambda>f. concat (map (\<lambda>(c, ms). map (record_line c) ms) (cat f)))
                                   (expand_globs w glob_paths []))))"
  using assms(1) file_loop_catalogs [OF assms(2,3), of init_state]
  by (simp add: yaml_to_all_tests_def init_state_def catalog_lines_def)

theorem yaml_to_all_tests_output_witness:
  "writable single_file_world ''combined-test-catalog.txt'' \<and>
   expand_globs single_file_world [''test-catalog/**/*.yaml''] [] = [''test-catalog/core.yaml''] \<and>
   load single_file_world ''test-catalog/core.yaml'' =
     Inr (catalog_value (single_file_catalog ''test-catalog/core.yaml'')) \<and>
   single_file_catalog ''test-catalog/core.yaml'' = [(text_of ''Foo'', [text_of ''a'', text_of ''b''])] \<and>
   encodable single_file_world (record_line (text_of ''Foo'') (text_of ''a'')) \<and>
   encodable single_file_world (record_line (text_of ''Foo'') (text_of ''b'')) \<and>
   snd (yaml_to_all_tests single_file_world [''test-catalog/**/*.yaml'']
          ''combined-test-catalog.txt'' Map.empty) ''combined-test-catalog.txt'' =
     Some (text_of ''Foo#a\<newline>Foo#b\<newline>'')"
proof -
  have h1: "writable single_file_world ''combined-test-catalog.txt''"
    by (simp add: single_file_world_def files_world_def)
  have h2: "\<forall>f \<in> set (expand_globs single_file_world [''test-catalog/**/*.yaml''] []).
      load single_file_world f = Inr (catalog_value (single_file_catalog f))"
    by (simp add: single_file_world_def world_simps catalog_value_def single_file_catalog_def)
  have h3: "\<forall>f \<in> set (expand_globs single_file_world [''test-catalog/**/*.yaml''] []).
      \<forall>(c, ms) \<in> set (single_file_catalog f). \<forall>m \<in> set ms.
        encodable single_file_world (record_line c m)"
    by (simp add: single_file_world_def world_simps single_file_catalog_def record_line_def)
  have e: "glob single_file_world ''test-catalog/**/*.yaml'' = [''test-catalog/core.yaml'']"
    by (simp add: single_file_world_def files_world_def)
  have l: "load single_file_world ''test-catalog/core.yaml'' =
     Inr (catalog_value (single_file_catalog ''test-catalog/core.yaml''))"
    by (simp add: single_file_world_def world_simps catalog_value_def single_file_catalog_def)
  have enc: "encodable single_file_world (record_line (text_of ''Foo'') (text_of ''a''))"
    "encodable single_file_world (record_line (text_of ''Foo'') (text_of ''b''))"
    by (simp_all add: single_file_world_def world_simps record_line_def)
  have r: "snd (yaml_to_all_tests single_file_world [''test-catalog/**/*.yaml'']
          ''combined-test-catalog.txt'' Map.empty) ''combined-test-catalog.txt'' =
     Some (text_of ''Foo#a\<newline>Foo#b\<newline>'')"
    using yaml_to_all_tests_output [OF h1 h2 h3, of Map.empty]
    by (simp add: e single_file_catalog_def record_line_def text_of_def newline_def hash_sign_def)
  have c: "single_file_catalog ''test-catalog/core.yaml'' = [(text_of ''Foo'', [text_of ''a'', text_of ''b''])]"
    by (simp add: single_file_catalog_def)
  have e': "expand_globs single_file_world [''test-catalog/**/*.yaml''] [] = [''test-catalog/core.yaml'']"
    by (simp add: e)
  show ?thesis
    by (rule conjI [OF h1 conjI [OF e' conjI [OF l conjI [OF c conjI [OF enc(1) conjI [OF enc(2) r]]]]]])
qed

text \<open>
  C1 as it is stated fails: the file \<open>{"Foo": ["\u00e9"]}\<close> is a mapping from a class
  name to a sequence of one method name; where the default encoding is ASCII the write of
  line 49 raises \<open>UnicodeEncodeError\<close>, and the output file is left empty, without the line
  of the pair.
\<close>

theorem yaml_to_all_tests_output_counterexample:
  "writable ascii_world ''combined-test-catalog.txt'' \<and>
   expand_globs ascii_world [''test-catalog/**/*.yaml''] [] = [''test-catalog/core.yaml''] \<and>
   load ascii_world ''test-catalog/core.yaml'' = Inr (catalog_value [(text_of ''Foo'', [[233]])]) \<and>
   yaml_to_all_tests ascii_world [''test-catalog/**/*.yaml''] ''combined-test-catalog.txt'' Map.empty =
     (Raised UnicodeEncodeError \<lparr>class_count = 1, method_count = 1, written = []\<rparr>,
      [''combined-test-catalog.txt'' \<mapsto> []]) \<and>
   snd (yaml_to_all_tests ascii_world [''test-catalog/**/*.yaml''] ''combined-test-catalog.txt'' Map.empty)
       ''combined-test-catalog.txt'' \<noteq>
     Some (concat [record_line (text_of ''Foo'') [233]])"
  by (simp add: ascii_world_def ascii_encodable_def world_simps catalog_value_def
      yaml_to_all_tests_def init_state_def record_line_def)

subsection \<open>The number of lines\<close>

lemma line_count_append: "line_count (xs @ ys) = line_count xs + line_count ys"
  by (induction xs) (auto simp: line_count_def)

lemma line_count_concat: "line_count (concat xss) = sum_list (map line_count xss)"
  by (induction xss) (auto simp: line_count_append line_count_def)

lemma line_count_no_newline: "newline \<notin> set t \<Longrightarrow> line_count t = 0"
  by (induction t) (auto simp: line_count_def)

lemma line_count_record_line:
  "newline \<notin> set c \<Longrightarrow> newline \<notin> set m \<Longrightarrow> line_count (record_line c m) = 1"
  by (simp add: record_line_def line_count_append line_count_no_newline)
     (simp add: line_count_def newline_def hash_sign_def)

lemma line_count_class:
  "\<forall>m \<in> set ms. newline \<notin> set c \<and> newline \<notin> set m \<Longrightarrow>
   sum_list (map line_count (map (record_line c) ms)) = length ms"
  by (induction ms) (auto simp: line_count_record_line)

lemma line_count_catalog:
  "\<forall>(c, ms) \<in> set cat. \<forall>m \<in> set ms. newline \<notin> set c \<and> newline \<notin> set m \<Longrightarrow>
   sum_list (map line_count (catalog_lines cat)) = method_total cat"
proof (induction cat)
  case Nil
  show ?case by (simp add: catalog_lines_def method_total_def)
next
  case (Cons a cat)
  obtain c ms where a: "a = (c, ms)" by (cases a)
  have here: "\<forall>m \<in> set ms. newline \<notin> set c \<and> newline \<notin> set m"
    using Cons.prems by (simp add: a)
  have rest: "\<forall>(c, ms) \<in> set cat. \<forall>m \<in> set ms. newline \<notin> set c \<and> newline \<notin> set m"
    using Cons.prems by simp
  have step: "catalog_lines (a # cat) = map (record_line c) ms @ catalog_lines cat"
    by (simp add: catalog_lines_def a)
  have total: "method_total (a # cat) = length ms + method_total cat"
    by (simp add: method_total_def a)
  show ?case
    using Cons.IH [OF rest] line_count_class [OF here] by (simp add: step total)
qed

lemma line_count_files:
  "\<forall>f \<in> set yamls. \<forall>(c, ms) \<in> set (cat f). \<forall>m \<in> set ms. newline \<notin> set c \<and> newline \<notin> set m \<Longrightarrow>
   sum_list (map line_count (concat (map (\<lambda>f. catalog_lines (cat f)) yamls))) =
     sum_list (map (\<lambda>f. method_total (cat f)) yamls)"
  by (induction yamls) (auto simp: line_count_catalog)

lemma line_count_single_lines:
  "\<forall>l \<in> set ls. line_count l = 1 \<Longrightarrow> line_count (concat ls) = length ls"
  by (induction ls) (auto simp: line_count_append line_count_def)

text \<open>
  C2, as the code has it. When the output file can be opened, every resolved file parses
  to a well-formed catalog, the encoding of the output file can encode every record and
  no name that appears in a record contains a newline character, the number of lines of
  the output file is the sum, over the resolved files (a file resolved twice counting
  twice), of the lengths of the method sequences of all class keys of the file.
\<close>

theorem yaml_to_all_tests_line_count:
  assumes "writable w out_file"
    and "\<forall>f \<in> set (expand_globs w glob_paths []). load w f = Inr (catalog_value (cat f))"
    and "\<forall>f \<in> set (expand_globs w glob_paths []).
           \<forall>(c, ms) \<in> set (cat f). \<forall>m \<in> set ms. encodable w (record_line c m)"
    and "\<forall>f \<in> set (expand_globs w glob_paths []).
           \<forall>(c, ms) \<in> set (cat f). \<forall>m \<in> set ms. newline \<notin> set c \<and> newline \<notin> set m"
  shows "\<exists>t. snd (yaml_to_all_tests w glob_paths out_file fs) out_file = Some t \<and>
             line_count t = sum_list (map (\<lambda>f. sum_list (map (\<lambda>(c, ms). length ms) (cat f)))
                                          (expand_globs w glob_paths []))"
  using assms(1) file_loop_catalogs [OF assms(2,3), of init_state] line_count_files [OF assms(4)]
  by (simp add: yaml_to_all_tests_def init_state_def line_count_concat method_total_def)

theorem yaml_to_all_tests_line_count_witness:
  "writable single_file_world ''combined-test-catalog.txt'' \<and>
   expand_globs single_file_world [''test-catalog/**/*.yaml''] [] = [''test-catalog/core.yaml''] \<and>
   load single_file_world ''test-catalog/core.yaml'' =
     Inr (catalog_value (single_file_catalog ''test-catalog/core.yaml'')) \<and>
   single_file_catalog ''test-catalog/core.yaml'' = [(text_of ''Foo'', [text_of ''a'', text_of ''b''])] \<and>
   encodable single_file_world (record_line (text_of ''Foo'') (text_of ''a'')) \<and>
   encodable single_file_world (record_line (text_of ''Foo'') (text_of ''b'')) \<and>
   newline \<notin> set (text_of ''Foo'') \<and> newline \<notin> set (text_of ''a'') \<and> newline \<notin> set (text_of ''b'') \<and>
   (\<exists>t. snd (yaml_to_all_tests single_file_world [''test-catalog/**/*.yaml'']
               ''combined-test-catalog.txt'' Map.empty) ''combined-test-catalog.txt'' = Some t \<and>
        line_count t = 2)"
proof -
  have h1: "writable single_file_world ''combined-test-catalog.txt''"
    by (simp add: single_file_world_def files_world_def)
  have h2: "\<forall>f \<in> set (expand_globs single_file_world [''test-catalog/**/*.yaml''] []).
      load single_file_world f = Inr (catalog_value (single_file_catalog f))"
    by (simp add: single_file_world_def world_simps catalog_value_def single_file_catalog_def)
  have h3: "\<forall>f \<in> set (expand_globs single_file_world [''test-catalog/**/*.yaml''] []).
      \<forall>(c, ms) \<in> set (single_file_catalog f). \<forall>m \<in> set ms.
        encodable single_file_world (record_line c m)"
    by (simp add: single_file_world_def world_simps single_file_catalog_def record_line_def)
  have h4: "\<forall>f \<in> set (expand_globs single_file_world [''test-catalog/**/*.yaml''] []).
      \<forall>(c, ms) \<in> set (single_file_catalog f). \<forall>m \<in> set ms. newline \<notin> set c \<and> newline \<notin> set m"
    by (simp add: single_file_catalog_def text_of_def newline_def)
  have e: "glob single_file_world ''test-catalog/**/*.yaml'' = [''test-catalog/core.yaml'']"
    by (simp add: single_file_world_def files_world_def)
  have e': "expand_globs single_file_world [''test-catalog/**/*.yaml''] [] = [''test-catalog/core.yaml'']"
    by (simp add: e)
  have l: "load single_file_world ''test-catalog/core.yaml'' =
     Inr (catalog_value (single_file_catalog ''test-catalog/core.yaml''))"
    by (simp add: single_file_world_def world_simps catalog_value_def single_file_catalog_def)
  have c: "single_file_catalog ''test-catalog/core.yaml'' = [(text_of ''Foo'', [text_of ''a'', text_of ''b''])]"
    by (simp add: single_file_catalog_def)
  have enc: "encodable single_file_world (record_line (text_of ''Foo'') (text_of ''a''))"
    "encodable single_file_world (record_line (text_of ''Foo'') (text_of ''b''))"
    by (simp_all add: single_file_world_def world_simps record_line_def)
  have n: "newline \<notin> set (text_of ''Foo'') \<and> newline \<notin> set (text_of ''a'') \<and> newline \<notin> set (text_of ''b'')"
    by (simp add: text_of_def newline_def)
  have r: "\<exists>t. snd (yaml_to_all_tests single_file_world [''test-catalog/**/*.yaml'']
               ''combined-test-catalog.txt'' Map.empty) ''combined-test-catalog.txt'' = Some t \<and>
        line_count t = 2"
    using yaml_to_all_tests_line_count [OF h1 h2 h3 h4, of Map.empty]
    by (simp add: e single_file_catalog_def numeral_2_eq_2)
  show ?thesis
    by (rule conjI [OF h1 conjI [OF e' conjI [OF l conjI [OF c conjI [OF enc(1) conjI [OF enc(2) conjI [OF conjunct1 [OF n] conjI [OF conjunct1 [OF conjunct2 [OF n]] conjI [OF conjunct2 [OF conjunct2 [OF n]] r]]]]]]]]])
qed

text \<open>
  C2 as it is stated fails: the file \<open>{"Foo": ["a\nb"]}\<close> is a mapping from a class name
  to a sequence of one method name, and the output file has two lines.
\<close>

theorem yaml_to_all_tests_line_count_counterexample:
  "writable newline_world ''combined-test-catalog.txt'' \<and>
   expand_globs newline_world [''test-catalog/**/*.yaml''] [] = [''test-catalog/core.yaml''] \<and>
   load newline_world ''test-catalog/core.yaml'' =
     Inr (catalog_value [(text_of ''Foo'', [text_of ''a\<newline>b''])]) \<and>
   snd (yaml_to_all_tests newline_world [''test-catalog/**/*.yaml'']
          ''combined-test-catalog.txt'' Map.empty) ''combined-test-catalog.txt'' =
     Some (text_of ''Foo#a\<newline>b\<newline>'') \<and>
   line_count (text_of ''Foo#a\<newline>b\<newline>'') = 2 \<and>
   sum_list (map (\<lambda>(c, ms). length ms) [(text_of ''Foo'', [text_of ''a\<newline>b''])]) = 1 \<and>
   line_count (text_of ''Foo#a\<newline>b\<newline>'') \<noteq>
     sum_list (map (\<lambda>(c, ms). length ms) [(text_of ''Foo'', [text_of ''a\<newline>b''])])"
  by (simp add: newline_world_def world_simps catalog_value_def yaml_to_all_tests_def
      init_state_def line_count_def)

subsection \<open>Pattern expansion\<close>

lemma file_loop_append:
  "file_loop w (xs @ ys) s =
     (case file_loop w xs s of Done s' \<Rightarrow> file_loop w ys s' | Raised e s' \<Rightarrow> Raised e s')"
  by (induction xs arbitrary: s) (auto split: sum.splits outcome.splits)

lemma count_list_concat: "count_list (concat xss) x = sum_list (map (\<lambda>xs. count_list xs x) xss)"
  by (induction xss) auto

lemma shift_init: "shift s init_state = s"
  by (simp add: shift_def init_state_def)

lemma shift_method:
  "(shift s d)\<lparr>method_count := method_count (shift s d) + 1\<rparr> =
   shift s (d\<lparr>method_count := method_count d + 1\<rparr>)"
  by (simp add: shift_def)

lemma shift_written:
  "(shift s d)\<lparr>written := written (shift s d) @ [l]\<rparr> = shift s (d\<lparr>written := written d @ [l]\<rparr>)"
  by (simp add: shift_def)

lemma shift_class:
  "(shift s d)\<lparr>class_count := class_count (shift s d) + 1\<rparr> =
   shift s (d\<lparr>class_count := class_count d + 1\<rparr>)"
  by (simp add: shift_def)

lemma write_methods_shift:
  "write_methods w c ms (shift s d) = shift_outcome s (write_methods w c ms d)"
proof (induction ms arbitrary: d)
  case Nil
  show ?case by simp
next
  case (Cons m ms)
  show ?case
    using Cons.IH [of "d\<lparr>method_count := method_count d + 1,
        written := written d @ [py_str w c @ [hash_sign] @ py_str w m @ [newline]]\<rparr>"]
    by (simp add: Let_def shift_method shift_written del: One_nat_def)
qed

lemma class_loop_shift:
  "class_loop w kvs (shift s d) = shift_outcome s (class_loop w kvs d)"
proof (induction kvs arbitrary: d)
  case Nil
  show ?case by simp
next
  case (Cons a kvs)
  obtain k v where a: "a = (k, v)" by (cases a)
  note step = shift_class
  show ?case
  proof (cases "py_iter v")
    case (Inl e)
    then show ?thesis by (simp add: a Let_def step del: One_nat_def)
  next
    case (Inr ms)
    show ?thesis
    proof (cases "write_methods w k ms (d\<lparr>class_count := class_count d + 1\<rparr>)")
      case (Done d2)
      then show ?thesis
        using Cons.IH [of d2]
        by (simp add: a Inr Let_def step write_methods_shift del: One_nat_def)
    next
      case (Raised e d2)
      then show ?thesis
        by (simp add: a Inr Let_def step write_methods_shift del: One_nat_def)
    qed
  qed
qed

lemma file_loop_shift:
  "file_loop w yamls (shift s d) = shift_outcome s (file_loop w yamls d)"
proof (induction yamls arbitrary: d)
  case Nil
  show ?case by simp
next
  case (Cons f yamls)
  show ?case
  proof (cases "load w f")
    case (Inl e)
    then show ?thesis by simp
  next
    case (Inr v)
    show ?thesis
    proof (cases "py_items v")
      case (Inl e)
      then show ?thesis by (simp add: \<open>load w f = Inr v\<close>)
    next
      case items: (Inr kvs)
      show ?thesis
      proof (cases "class_loop w kvs d")
        case (Done d2)
        then show ?thesis
          using Cons.IH [of d2] by (simp add: \<open>load w f = Inr v\<close> items class_loop_shift)
      next
        case (Raised e d2)
        then show ?thesis
          by (simp add: \<open>load w f = Inr v\<close> items class_loop_shift)
      qed
    qed
  qed
qed

lemma run_output:
  "writable w out_file \<Longrightarrow>
   snd (yaml_to_all_tests w glob_paths out_file fs) out_file =
     Some (concat (written (state_of (file_loop w (expand_globs w glob_paths []) init_state))))"
  by (simp add: run_writable split: outcome.splits)

text \<open>
  C3. The patterns are expanded one by one and the results concatenated in the order of
  the patterns; a file is processed as many times as the patterns match it together.
  When the output file can be opened, the output for the patterns \<open>ps @ qs\<close> is the
  output for \<open>ps\<close> followed by the output for \<open>qs\<close> whenever the run for \<open>ps\<close>
  completes (and the output for \<open>ps\<close> alone when that run aborts), so what two patterns
  both match is written twice.
\<close>

theorem glob_patterns_not_deduplicated:
  assumes "writable w out_file"
  shows "expand_globs w ps [] = concat (map (glob w) ps) \<and>
         count_list (expand_globs w ps []) g = sum_list (map (\<lambda>p. count_list (glob w p) g) ps) \<and>
         (\<exists>t u. snd (yaml_to_all_tests w ps out_file fs) out_file = Some t \<and>
                snd (yaml_to_all_tests w qs out_file fs) out_file = Some u \<and>
                snd (yaml_to_all_tests w (ps @ qs) out_file fs) out_file =
                  Some (case fst (yaml_to_all_tests w ps out_file fs) of
                          Done s \<Rightarrow> t @ u
                        | Raised e s \<Rightarrow> t))"
proof -
  have both: "expand_globs w (ps @ qs) [] = expand_globs w ps [] @ expand_globs w qs []"
    by (simp add: expand_globs_acc)
  have third: "snd (yaml_to_all_tests w (ps @ qs) out_file fs) out_file =
      Some (case fst (yaml_to_all_tests w ps out_file fs) of
              Done s \<Rightarrow> concat (written (state_of (file_loop w (expand_globs w ps []) init_state))) @
                        concat (written (state_of (file_loop w (expand_globs w qs []) init_state)))
            | Raised e s \<Rightarrow> concat (written (state_of (file_loop w (expand_globs w ps []) init_state))))"
  proof (cases "file_loop w (expand_globs w ps []) init_state")
    case (Done s)
    have "file_loop w (expand_globs w qs []) s =
        shift_outcome s (file_loop w (expand_globs w qs []) init_state)"
      using file_loop_shift [of w "expand_globs w qs []" s init_state] by (simp add: shift_init)
    then show ?thesis
      using Done
      by (cases "file_loop w (expand_globs w qs []) init_state")
         (simp_all add: run_output [OF assms] run_writable [OF assms] both file_loop_append
            shift_def)
  next
    case (Raised e s)
    then show ?thesis
      by (simp add: run_output [OF assms] run_writable [OF assms] both file_loop_append)
  qed
  have c1: "expand_globs w ps [] = concat (map (glob w) ps)"
    by (simp add: expand_globs_acc)
  have c2: "count_list (expand_globs w ps []) g = sum_list (map (\<lambda>p. count_list (glob w p) g) ps)"
    by (simp add: expand_globs_acc count_list_concat comp_def)
  have c3: "\<exists>t u. snd (yaml_to_all_tests w ps out_file fs) out_file = Some t \<and>
                snd (yaml_to_all_tests w qs out_file fs) out_file = Some u \<and>
                snd (yaml_to_all_tests w (ps @ qs) out_file fs) out_file =
                  Some (case fst (yaml_to_all_tests w ps out_file fs) of
                          Done s \<Rightarrow> t @ u
                        | Raised e s \<Rightarrow> t)"
  proof (intro exI conjI)
    show "snd (yaml_to_all_tests w ps out_file fs) out_file =
        Some (concat (written (state_of (file_loop w (expand_globs w ps []) init_state))))"
      by (rule run_output [OF assms])
    show "snd (yaml_to_all_tests w qs out_file fs) out_file =
        Some (concat (written (state_of (file_loop w (expand_globs w qs []) init_state))))"
      by (rule run_output [OF assms])
    show "snd (yaml_to_all_tests w (ps @ qs) out_file fs) out_file =
      Some (case fst (yaml_to_all_tests w ps out_file fs) of
              Done s \<Rightarrow> concat (written (state_of (file_loop w (expand_globs w ps []) init_state))) @
                        concat (written (state_of (file_loop w (expand_globs w qs []) init_state)))
            | Raised e s \<Rightarrow> concat (written (state_of (file_loop w (expand_globs w ps []) init_state))))"
      by (rule third)
  qed
  show ?thesis
    by (rule conjI [OF c1 conjI [OF c2 c3]])
qed

theorem glob_patterns_not_deduplicated_witness:
  "writable duplicate_world ''combined-test-catalog.txt'' \<and>
   expand_globs duplicate_world [''test-catalog/**/*.yaml'', ''test-catalog/core/*.yaml''] [] =
     [''test-catalog/core/tests.yaml'', ''test-catalog/clients/tests.yaml'',
      ''test-catalog/core/tests.yaml''] \<and>
   snd (yaml_to_all_tests duplicate_world [''test-catalog/**/*.yaml'']
          ''combined-test-catalog.txt'' Map.empty) ''combined-test-catalog.txt'' =
     Some (text_of ''Foo#a\<newline>Foo#a\<newline>'') \<and>
   snd (yaml_to_all_tests duplicate_world [''test-catalog/**/*.yaml'', ''test-catalog/core/*.yaml'']
          ''combined-test-catalog.txt'' Map.empty) ''combined-test-catalog.txt'' =
     Some (text_of ''Foo#a\<newline>Foo#a\<newline>Foo#a\<newline>'')"
proof -
  have h1: "writable duplicate_world ''combined-test-catalog.txt''"
    by (simp add: duplicate_world_def files_world_def)
  have e: "expand_globs duplicate_world [''test-catalog/**/*.yaml'', ''test-catalog/core/*.yaml''] [] =
     [''test-catalog/core/tests.yaml'', ''test-catalog/clients/tests.yaml'',
      ''test-catalog/core/tests.yaml'']"
    by (simp add: duplicate_world_def files_world_def)
  have one: "yaml_to_all_tests duplicate_world [''test-catalog/**/*.yaml'']
          ''combined-test-catalog.txt'' Map.empty =
     (Done \<lparr>class_count = 2, method_count = 2,
             written = [text_of ''Foo#a\<newline>'', text_of ''Foo#a\<newline>'']\<rparr>,
      [''combined-test-catalog.txt'' \<mapsto> text_of ''Foo#a\<newline>Foo#a\<newline>''])"
    by (simp add: duplicate_world_def world_simps yaml_to_all_tests_def init_state_def)
  have two: "snd (yaml_to_all_tests duplicate_world [''test-catalog/core/*.yaml'']
          ''combined-test-catalog.txt'' Map.empty) ''combined-test-catalog.txt'' =
     Some (text_of ''Foo#a\<newline>'')"
    by (simp add: duplicate_world_def world_simps yaml_to_all_tests_def init_state_def)
  have one': "snd (yaml_to_all_tests duplicate_world [''test-catalog/**/*.yaml'']
          ''combined-test-catalog.txt'' Map.empty) ''combined-test-catalog.txt'' =
     Some (text_of ''Foo#a\<newline>Foo#a\<newline>'')"
    by (simp add: one)
  have "snd (yaml_to_all_tests duplicate_world
          ([''test-catalog/**/*.yaml''] @ [''test-catalog/core/*.yaml''])
          ''combined-test-catalog.txt'' Map.empty) ''combined-test-catalog.txt'' =
     Some (text_of ''Foo#a\<newline>Foo#a\<newline>'' @ text_of ''Foo#a\<newline>'')"
    using glob_patterns_not_deduplicated [OF h1, of "[''test-catalog/**/*.yaml'']" "[]"
        Map.empty "[''test-catalog/core/*.yaml'']"]
    by (simp add: one two)
  then have three: "snd (yaml_to_all_tests duplicate_world
          [''test-catalog/**/*.yaml'', ''test-catalog/core/*.yaml'']
          ''combined-test-catalog.txt'' Map.empty) ''combined-test-catalog.txt'' =
     Some (text_of ''Foo#a\<newline>Foo#a\<newline>Foo#a\<newline>'')"
    by (simp add: text_of_def)
  show ?thesis
    by (rule conjI [OF h1 conjI [OF e conjI [OF one' three]]])
qed

subsection \<open>The command line\<close>

lemma main_outcome:
  "main w env c fs =
     (if env ''GITHUB_WORKSPACE'' = None \<or> env ''GITHUB_WORKSPACE'' = Some []
      then (Exit 1, fs) else (Uncaught AttributeError, fs))"
  by (simp add: main_def parse_args_def getattr_def Let_def)

text \<open>
  C4. With \<open>GITHUB_WORKSPACE\<close> set and no \<open>--path\<close> option, line 74 reads the attribute
  \<open>paths\<close>, which the namespace does not have: the process ends with an uncaught
  \<open>AttributeError\<close> and status 1, \<open>yaml_to_all_tests\<close> is not called and no file is
  written.
\<close>

theorem main_default_path_raises:
  "main single_file_world [''GITHUB_WORKSPACE'' \<mapsto> ''/home/runner/work/kafka'']
     \<lparr>path_args = [], output_file_arg = None\<rparr> Map.empty =
     (Uncaught AttributeError, Map.empty) \<and>
   exit_status (Uncaught AttributeError) = 1 \<and>
   snd (yaml_to_all_tests single_file_world [''test-catalog/**/*.yaml'']
          ''combined-test-catalog.txt'' Map.empty) ''combined-test-catalog.txt'' =
     Some (text_of ''Foo#a\<newline>Foo#b\<newline>'')"
  by (simp add: main_def parse_args_def getattr_def single_file_world_def world_simps
      yaml_to_all_tests_def init_state_def)

subsection \<open>Runs that abort\<close>

lemma class_loop_raises:
  "list_ex (\<lambda>(k, v). not_iterable v) kvs \<Longrightarrow> \<exists>e s'. class_loop w kvs s = Raised e s'"
proof (induction kvs arbitrary: s)
  case Nil
  then show ?case by simp
next
  case (Cons a kvs)
  obtain k v where a: "a = (k, v)" by (cases a)
  show ?case
  proof (cases "py_iter v")
    case (Inl e)
    then show ?thesis by (simp add: a)
  next
    case (Inr ms)
    then have rest: "list_ex (\<lambda>(k, v). not_iterable v) kvs"
      using Cons.prems by (simp add: a not_iterable_def)
    show ?thesis
    proof (cases "write_methods w k ms (s\<lparr>class_count := class_count s + 1\<rparr>)")
      case (Done s2)
      with Cons.IH [OF rest, of s2] show ?thesis by (simp add: a Inr)
    next
      case (Raised e s2)
      then show ?thesis by (simp add: a Inr)
    qed
  qed
qed

lemma file_loop_raises:
  assumes "f \<in> set yamls"
    and "(\<exists>e. load w f = Inl e) \<or> (\<exists>v. load w f = Inr v \<and> raising_shape v)"
  shows "\<exists>e s'. file_loop w yamls s = Raised e s'"
  using assms(1)
proof (induction yamls arbitrary: s)
  case Nil
  then show ?case by simp
next
  case (Cons g yamls)
  have here: "\<exists>e s'. file_loop w (f # yamls) s = Raised e s'"
  proof (cases "load w f")
    case (Inl e)
    then show ?thesis by simp
  next
    case (Inr v)
    then have bad: "raising_shape v" using assms(2) by auto
    show ?thesis
    proof (cases "py_items v")
      case (Inl e)
      then show ?thesis by (simp add: \<open>load w f = Inr v\<close>)
    next
      case items: (Inr kvs)
      then have "v = PDict kvs" by (cases v) auto
      then have "list_ex (\<lambda>(k, v). not_iterable v) kvs" using bad by simp
      from class_loop_raises [OF this, of w s] show ?thesis
        by (auto simp: \<open>load w f = Inr v\<close> items)
    qed
  qed
  show ?case
  proof (cases "g = f")
    case True
    then show ?thesis using here by simp
  next
    case False
    then have "f \<in> set yamls" using Cons.prems by simp
    from Cons.IH [OF this] show ?thesis
      by (auto split: sum.splits outcome.splits)
  qed
qed

text \<open>
  C5 as it is stated fails: in the file \<open>{"Foo": "ab"}\<close> the value of the key is a single
  string, not a sequence of strings; the run completes and writes one line per character.
\<close>

theorem string_value_counterexample:
  "yaml_to_all_tests str_value_world [''test-catalog/**/*.yaml'']
     ''combined-test-catalog.txt'' Map.empty =
     (Done \<lparr>class_count = 1, method_count = 2,
             written = [text_of ''Foo#a\<newline>'', text_of ''Foo#b\<newline>'']\<rparr>,
      [''combined-test-catalog.txt'' \<mapsto> text_of ''Foo#a\<newline>Foo#b\<newline>''])"
  by (simp add: str_value_world_def world_simps yaml_to_all_tests_def init_state_def)

text \<open>
  C5, as the code has it. When a resolved file parses to a value that is not a mapping
  (null, a scalar, a sequence), or to a mapping one of whose values is not iterable (null,
  a boolean, a number, a date), the run aborts with an error; the error propagates out of
  the call of line 76, where nothing catches it, and the process terminates with a status
  that is not zero (as the script is, line 74 makes it do so on every command line).
\<close>

theorem bad_shape_aborts:
  assumes "f \<in> set (expand_globs w glob_paths [])"
    and "load w f = Inr v"
    and "raising_shape v"
  shows "(\<exists>e s. fst (yaml_to_all_tests w glob_paths out_file fs) = Raised e s) \<and>
         (\<exists>e. fst (call_yaml_to_all_tests w (AStrs glob_paths) (AStr out_file) fs) = Uncaught e) \<and>
         exit_status (fst (call_yaml_to_all_tests w (AStrs glob_paths) (AStr out_file) fs)) \<noteq> 0 \<and>
         exit_status (fst (main w env c fs)) \<noteq> 0"
proof -
  have "(\<exists>e. load w f = Inl e) \<or> (\<exists>v. load w f = Inr v \<and> raising_shape v)"
    using assms(2,3) by simp
  from file_loop_raises [OF assms(1) this, of init_state]
  have raised: "\<exists>e s. fst (yaml_to_all_tests w glob_paths out_file fs) = Raised e s"
    by (auto simp: yaml_to_all_tests_def)
  then obtain e s where "fst (yaml_to_all_tests w glob_paths out_file fs) = Raised e s"
    by blast
  then have call: "fst (call_yaml_to_all_tests w (AStrs glob_paths) (AStr out_file) fs) = Uncaught e"
    by (cases "yaml_to_all_tests w glob_paths out_file fs") simp
  have status: "exit_status (fst (main w env c fs)) \<noteq> 0"
    by (simp add: main_outcome)
  show ?thesis
    using raised call status by simp
qed

theorem bad_shape_aborts_witness:
  "''test-catalog/core.yaml'' \<in> set (expand_globs int_value_world [''test-catalog/**/*.yaml''] []) \<and>
   load int_value_world ''test-catalog/core.yaml'' = Inr (PDict [(PStr (text_of ''Foo''), PInt 3)]) \<and>
   raising_shape (PDict [(PStr (text_of ''Foo''), PInt 3)]) \<and>
   fst (yaml_to_all_tests int_value_world [''test-catalog/**/*.yaml'']
          ''combined-test-catalog.txt'' Map.empty) =
     Raised TypeError \<lparr>class_count = 1, method_count = 0, written = []\<rparr> \<and>
   call_yaml_to_all_tests int_value_world (AStrs [''test-catalog/**/*.yaml''])
       (AStr ''combined-test-catalog.txt'') Map.empty =
     (Uncaught TypeError, [''combined-test-catalog.txt'' \<mapsto> []]) \<and>
   exit_status (Uncaught TypeError) = 1"
proof -
  have h1: "''test-catalog/core.yaml'' \<in> set (expand_globs int_value_world [''test-catalog/**/*.yaml''] [])"
    by (simp add: int_value_world_def files_world_def)
  have h2: "load int_value_world ''test-catalog/core.yaml'' = Inr (PDict [(PStr (text_of ''Foo''), PInt 3)])"
    by (simp add: int_value_world_def files_world_def)
  have h3: "raising_shape (PDict [(PStr (text_of ''Foo''), PInt 3)])"
    by (simp add: not_iterable_def)
  have r: "fst (yaml_to_all_tests int_value_world [''test-catalog/**/*.yaml'']
          ''combined-test-catalog.txt'' Map.empty) =
     Raised TypeError \<lparr>class_count = 1, method_count = 0, written = []\<rparr>"
    using bad_shape_aborts [OF h1 h2 h3, of "''combined-test-catalog.txt''" Map.empty]
    by (simp add: int_value_world_def files_world_def yaml_to_all_tests_def init_state_def)
  have c: "call_yaml_to_all_tests int_value_world (AStrs [''test-catalog/**/*.yaml''])
       (AStr ''combined-test-catalog.txt'') Map.empty =
     (Uncaught TypeError, [''combined-test-catalog.txt'' \<mapsto> []])"
    by (simp add: int_value_world_def files_world_def yaml_to_all_tests_def init_state_def)
  have x: "exit_status (Uncaught TypeError) = 1"
    by simp
  show ?thesis
    by (rule conjI [OF h1 conjI [OF h2 conjI [OF h3 conjI [OF r conjI [OF c x]]]]])
qed

text \<open>
  C6. When the output file can be opened and a resolved file is not YAML, the run aborts
  with an error and the output file holds what had been written when the error was
  raised, not its content before the run. When the files resolved before the malformed
  one were processed without error, the error is the parser's and the output file holds
  exactly the lines of those files.
\<close>

theorem malformed_yaml_aborts:
  assumes "writable w out_file"
    and "expand_globs w glob_paths [] = pre @ f # post"
    and "load w f = Inl YAMLError"
  shows "(\<exists>e s. yaml_to_all_tests w glob_paths out_file fs =
                  (Raised e s, fs(out_file \<mapsto> concat (written s)))) \<and>
         (\<forall>s. file_loop w pre init_state = Done s \<longrightarrow>
              yaml_to_all_tests w glob_paths out_file fs =
                (Raised YAMLError s, fs(out_file \<mapsto> concat (written s))))"
proof -
  have mem: "f \<in> set (expand_globs w glob_paths [])"
    by (simp add: assms(2))
  have "(\<exists>e. load w f = Inl e) \<or> (\<exists>v. load w f = Inr v \<and> raising_shape v)"
    by (simp add: assms(3))
  from file_loop_raises [OF mem this, of init_state]
  have first: "\<exists>e s. yaml_to_all_tests w glob_paths out_file fs =
                  (Raised e s, fs(out_file \<mapsto> concat (written s)))"
    by (auto simp: run_writable [OF assms(1)])
  have second: "yaml_to_all_tests w glob_paths out_file fs =
                (Raised YAMLError s, fs(out_file \<mapsto> concat (written s)))"
    if "file_loop w pre init_state = Done s" for s
    by (simp add: run_writable [OF assms(1)] assms(2) file_loop_append that assms(3))
  show ?thesis using first second by blast
qed

theorem malformed_yaml_aborts_witness:
  "writable malformed_world ''combined-test-catalog.txt'' \<and>
   expand_globs malformed_world [''test-catalog/**/*.yaml''] [] =
     [''test-catalog/core.yaml''] @ ''test-catalog/broken.yaml'' # [] \<and>
   load malformed_world ''test-catalog/broken.yaml'' = Inl YAMLError \<and>
   file_loop malformed_world [''test-catalog/core.yaml''] init_state =
     Done \<lparr>class_count = 1, method_count = 1, written = [text_of ''Foo#a\<newline>'']\<rparr> \<and>
   yaml_to_all_tests malformed_world [''test-catalog/**/*.yaml''] ''combined-test-catalog.txt''
       [''combined-test-catalog.txt'' \<mapsto> text_of ''Old#line\<newline>''] =
     (Raised YAMLError \<lparr>class_count = 1, method_count = 1, written = [text_of ''Foo#a\<newline>'']\<rparr>,
      [''combined-test-catalog.txt'' \<mapsto> text_of ''Foo#a\<newline>''])"
proof -
  have h1: "writable malformed_world ''combined-test-catalog.txt''"
    by (simp add: malformed_world_def files_world_def)
  have h2: "expand_globs malformed_world [''test-catalog/**/*.yaml''] [] =
     [''test-catalog/core.yaml''] @ ''test-catalog/broken.yaml'' # []"
    by (simp add: malformed_world_def files_world_def)
  have h3: "load malformed_world ''test-catalog/broken.yaml'' = Inl YAMLError"
    by (simp add: malformed_world_def files_world_def)
  have h4: "file_loop malformed_world [''test-catalog/core.yaml''] init_state =
     Done \<lparr>class_count = 1, method_count = 1, written = [text_of ''Foo#a\<newline>'']\<rparr>"
    by (simp add: malformed_world_def world_simps init_state_def)
  have r: "yaml_to_all_tests malformed_world [''test-catalog/**/*.yaml''] ''combined-test-catalog.txt''
       [''combined-test-catalog.txt'' \<mapsto> text_of ''Old#line\<newline>''] =
     (Raised YAMLError \<lparr>class_count = 1, method_count = 1, written = [text_of ''Foo#a\<newline>'']\<rparr>,
      [''combined-test-catalog.txt'' \<mapsto> text_of ''Foo#a\<newline>''])"
    using malformed_yaml_aborts [OF h1 h2 h3,
        of "[''combined-test-catalog.txt'' \<mapsto> text_of ''Old#line\<newline>'']"] h4
    by simp
  show ?thesis
    by (rule conjI [OF h1 conjI [OF h2 conjI [OF h3 conjI [OF h4 r]]]])
qed

subsection \<open>The counters\<close>

lemma extends_refl: "extends s s"
  by (simp add: extends_def)

lemma extends_trans: "extends a b \<Longrightarrow> extends b c \<Longrightarrow> extends a c"
  by (auto simp: extends_def)

lemma extends_class_count: "extends s (s\<lparr>class_count := n\<rparr>)"
  by (simp add: extends_def)

lemma write_methods_extends:
  "write_methods w c ms s = Done s' \<Longrightarrow> extends s s' \<and> class_count s' = class_count s"
proof (induction ms arbitrary: s)
  case Nil
  then show ?case by (simp add: extends_refl)
next
  case (Cons m ms)
  let ?line = "py_str w c @ [hash_sign] @ py_str w m @ [newline]"
  let ?s1 = "s\<lparr>method_count := method_count s + 1, written := written s @ [?line]\<rparr>"
  from Cons.prems have rest: "write_methods w c ms ?s1 = Done s'"
    by (simp add: Let_def split: if_splits)
  have "extends s ?s1" by (simp add: extends_def)
  with Cons.IH [OF rest] show ?case
    by (auto intro: extends_trans)
qed

lemma write_methods_append:
  "write_methods w c (xs @ ys) s =
     (case write_methods w c xs s of
        Done s1 \<Rightarrow> write_methods w c ys s1
      | Raised e s1 \<Rightarrow> Raised e s1)"
  by (induction xs arbitrary: s) (auto simp: Let_def)

lemma class_loop_step:
  assumes "class_loop w ((c, v) # kvs) s = Done s'"
    and "py_iter v = Inr ms"
  obtains s3 where "write_methods w c ms (s\<lparr>class_count := class_count s + 1\<rparr>) = Done s3"
    and "class_loop w kvs s3 = Done s'"
  using assms by (auto simp: Let_def split: outcome.splits)

lemma class_loop_append:
  "class_loop w (xs @ ys) s =
     (case class_loop w xs s of
        Done s1 \<Rightarrow> class_loop w ys s1
      | Raised e s1 \<Rightarrow> Raised e s1)"
proof (induction xs arbitrary: s)
  case Nil
  show ?case by simp
next
  case (Cons a xs)
  obtain k v where a: "a = (k, v)" by (cases a)
  show ?case
    by (simp add: a Let_def Cons.IH split: sum.splits outcome.splits)
qed

lemma class_loop_extends:
  "class_loop w kvs s = Done s' \<Longrightarrow> extends s s' \<and> class_count s' = class_count s + length kvs"
proof (induction kvs arbitrary: s)
  case Nil
  then show ?case by (simp add: extends_refl)
next
  case (Cons a kvs)
  obtain k v where a: "a = (k, v)" by (cases a)
  from Cons.prems obtain ms where ms: "py_iter v = Inr ms"
    by (auto simp: a Let_def split: sum.splits)
  from Cons.prems have p: "class_loop w ((k, v) # kvs) s = Done s'"
    by (simp only: a)
  from p ms obtain s3
    where one: "write_methods w k ms (s\<lparr>class_count := class_count s + 1\<rparr>) = Done s3"
      and rest: "class_loop w kvs s3 = Done s'"
    by (rule class_loop_step)
  from write_methods_extends [OF one] extends_class_count [of s "class_count s + 1"]
  have "extends s s3" "class_count s3 = class_count s + 1"
    by (auto intro: extends_trans)
  with Cons.IH [OF rest] show ?case
    by (auto intro: extends_trans)
qed

lemma file_loop_step:
  assumes "file_loop w (f # yamls) s = Done s'"
  obtains kvs sf where "load w f = Inr (PDict kvs)"
    and "class_loop w kvs s = Done sf"
    and "file_loop w yamls sf = Done s'"
proof -
  from assms obtain v where v: "load w f = Inr v"
    by (auto split: sum.splits)
  from assms v obtain kvs where kvs: "py_items v = Inr kvs"
    by (auto split: sum.splits)
  then have d: "v = PDict kvs" by (cases v) auto
  from assms v kvs obtain sf where "class_loop w kvs s = Done sf" "file_loop w yamls sf = Done s'"
    by (auto split: outcome.splits)
  with v d that show thesis by blast
qed

lemma file_loop_extends:
  "file_loop w yamls s = Done s' \<Longrightarrow>
   extends s s' \<and> class_count s' = class_count s + sum_list (map (key_count w) yamls)"
proof (induction yamls arbitrary: s)
  case Nil
  then show ?case by (simp add: extends_refl)
next
  case (Cons f yamls)
  from Cons.prems obtain kvs sf where f: "load w f = Inr (PDict kvs)"
    and one: "class_loop w kvs s = Done sf"
    and rest: "file_loop w yamls sf = Done s'"
    by (rule file_loop_step)
  have k: "key_count w f = length kvs"
    by (simp add: key_count_def f)
  from class_loop_extends [OF one] Cons.IH [OF rest] show ?case
    by (auto simp: k intro: extends_trans)
qed

lemma counters_agree_at:
  assumes "extends init_state s"
    and "extends s s'"
    and "\<forall>l \<in> set (written s'). line_count l = 1"
    and "class_count s = n"
  shows "counters_agree n s"
proof -
  from assms(1) have m: "method_count s = length (written s)"
    by (auto simp: extends_def init_state_def)
  from assms(2) have "set (written s) \<subseteq> set (written s')"
    by (auto simp: extends_def)
  with assms(3) have "\<forall>l \<in> set (written s). line_count l = 1"
    by blast
  from line_count_single_lines [OF this] m assms(4) show ?thesis
    by (simp add: counters_agree_def)
qed

text \<open>
  C7 as it is stated fails: for the file \<open>{"Foo": ["a\nb"]}\<close> the run completes with a
  method counter of 1, and the text written has two lines.
\<close>

theorem counters_track_progress_counterexample:
  "yaml_to_all_tests newline_world [''test-catalog/**/*.yaml''] ''combined-test-catalog.txt'' Map.empty =
     (Done \<lparr>class_count = 1, method_count = 1, written = [text_of ''Foo#a\<newline>b\<newline>'']\<rparr>,
      [''combined-test-catalog.txt'' \<mapsto> text_of ''Foo#a\<newline>b\<newline>'']) \<and>
   line_count (concat [text_of ''Foo#a\<newline>b\<newline>'']) = 2 \<and>
   \<not> counters_agree 1 \<lparr>class_count = 1, method_count = 1, written = [text_of ''Foo#a\<newline>b\<newline>'']\<rparr>"
  by (simp add: newline_world_def world_simps yaml_to_all_tests_def init_state_def
      line_count_def counters_agree_def)

text \<open>
  C7, as the code has it. Take a run that completes and in which every record written
  holds one newline character, that is, no class or method name written contains one.
  Then between any two iterations of each of the three loops the class counter is the
  number of class keys met so far, each file counting for itself (so a class name in two
  files, or a file resolved twice, counts twice), and the method counter is the number of
  lines written so far: after any number of files, after any number of keys of a file,
  and after any number of methods of a key. At the end the two counters are the totals of
  the run.
\<close>

theorem counters_track_progress:
  assumes "yaml_to_all_tests w glob_paths out_file fs = (Done s', fs')"
    and "\<forall>l \<in> set (written s'). line_count l = 1"
  shows "counters_agree (sum_list (map (key_count w) (expand_globs w glob_paths []))) s' \<and>
         (\<forall>pre post. expand_globs w glob_paths [] = pre @ post \<longrightarrow>
            (\<exists>s. file_loop w pre init_state = Done s \<and>
                 counters_agree (sum_list (map (key_count w) pre)) s)) \<and>
         (\<forall>pre f post kpre kpost.
            expand_globs w glob_paths [] = pre @ f # post \<and>
            load w f = Inr (PDict (kpre @ kpost)) \<longrightarrow>
            (\<exists>s0 s. file_loop w pre init_state = Done s0 \<and>
                    class_loop w kpre s0 = Done s \<and>
                    counters_agree (sum_list (map (key_count w) pre) + length kpre) s)) \<and>
         (\<forall>pre f post kpre clazz methods kpost mpre mpost.
            expand_globs w glob_paths [] = pre @ f # post \<and>
            load w f = Inr (PDict (kpre @ (clazz, methods) # kpost)) \<and>
            py_iter methods = Inr (mpre @ mpost) \<longrightarrow>
            (\<exists>s0 s1 s. file_loop w pre init_state = Done s0 \<and>
                       class_loop w kpre s0 = Done s1 \<and>
                       write_methods w clazz mpre (s1\<lparr>class_count := class_count s1 + 1\<rparr>) = Done s \<and>
                       counters_agree (sum_list (map (key_count w) pre) + length kpre + 1) s))"
proof -
  let ?yamls = "expand_globs w glob_paths []"
  have wr: "writable w out_file"
    using assms(1) by (auto simp: yaml_to_all_tests_def split: if_splits)
  have whole: "file_loop w ?yamls init_state = Done s'"
    using assms(1) by (auto simp: run_writable [OF wr] split: outcome.splits)
  have files: "\<exists>s. file_loop w pre init_state = Done s \<and> file_loop w post s = Done s' \<and>
      counters_agree (sum_list (map (key_count w) pre)) s"
    if "?yamls = pre @ post" for pre post
  proof -
    from whole that obtain s where pre: "file_loop w pre init_state = Done s"
      and post: "file_loop w post s = Done s'"
      by (auto simp: file_loop_append split: outcome.splits)
    from file_loop_extends [OF pre] have e0: "extends init_state s"
      by simp
    from file_loop_extends [OF pre] have c: "class_count s = sum_list (map (key_count w) pre)"
      by (simp add: init_state_def)
    from file_loop_extends [OF post] have e1: "extends s s'"
      by simp
    have "counters_agree (sum_list (map (key_count w) pre)) s"
      by (rule counters_agree_at [OF e0 e1 assms(2) c])
    with pre post show ?thesis by blast
  qed
  have keys: "\<exists>s0 s sf. file_loop w pre init_state = Done s0 \<and> class_loop w kpre s0 = Done s \<and>
      class_loop w kpost s = Done sf \<and> extends init_state s \<and> extends sf s' \<and>
      counters_agree (sum_list (map (key_count w) pre) + length kpre) s"
    if "?yamls = pre @ f # post" and "load w f = Inr (PDict (kpre @ kpost))"
    for pre f post kpre kpost
  proof -
    from files [OF that(1)] obtain s0 where pre: "file_loop w pre init_state = Done s0"
      and post: "file_loop w (f # post) s0 = Done s'"
      and c0: "class_count s0 = sum_list (map (key_count w) pre)"
      by (auto simp: counters_agree_def)
    from post obtain kvs sf where l: "load w f = Inr (PDict kvs)"
      and all': "class_loop w kvs s0 = Done sf"
      and rest: "file_loop w post sf = Done s'"
      by (rule file_loop_step)
    from l that(2) have "kvs = kpre @ kpost" by simp
    with all' have all: "class_loop w (kpre @ kpost) s0 = Done sf" by simp
    from all obtain s where kpre: "class_loop w kpre s0 = Done s"
      and kpost: "class_loop w kpost s = Done sf"
      by (auto simp: class_loop_append split: outcome.splits)
    from file_loop_extends [OF pre] have e0: "extends init_state s0" by simp
    from class_loop_extends [OF kpre] have e01: "extends s0 s" by simp
    have e1: "extends init_state s" by (rule extends_trans [OF e0 e01])
    from class_loop_extends [OF kpre] have c: "class_count s = sum_list (map (key_count w) pre) + length kpre"
      by (simp add: c0)
    from file_loop_extends [OF rest] have e3: "extends sf s'" by simp
    from class_loop_extends [OF kpost] have "extends s sf" by simp
    then have e2: "extends s s'" by (rule extends_trans [OF _ e3])
    have "counters_agree (sum_list (map (key_count w) pre) + length kpre) s"
      by (rule counters_agree_at [OF e1 e2 assms(2) c])
    with pre kpre kpost e1 e3 show ?thesis
      by blast
  qed
  have methods: "\<exists>s0 s1 s. file_loop w pre init_state = Done s0 \<and> class_loop w kpre s0 = Done s1 \<and>
      write_methods w clazz mpre (s1\<lparr>class_count := class_count s1 + 1\<rparr>) = Done s \<and>
      counters_agree (sum_list (map (key_count w) pre) + length kpre + 1) s"
    if "?yamls = pre @ f # post"
      and "load w f = Inr (PDict (kpre @ (clazz, methods) # kpost))"
      and "py_iter methods = Inr (mpre @ mpost)"
    for pre f post kpre clazz methods kpost mpre mpost
  proof -
    from keys [OF that(1,2)] obtain s0 s1 sf where pre: "file_loop w pre init_state = Done s0"
      and kpre: "class_loop w kpre s0 = Done s1"
      and item: "class_loop w ((clazz, methods) # kpost) s1 = Done sf"
      and e1: "extends init_state s1"
      and e3: "extends sf s'"
      and c1: "class_count s1 = sum_list (map (key_count w) pre) + length kpre"
      by (auto simp: counters_agree_def)
    from item that(3) obtain s3
      where all: "write_methods w clazz (mpre @ mpost) (s1\<lparr>class_count := class_count s1 + 1\<rparr>) = Done s3"
        and rest: "class_loop w kpost s3 = Done sf"
      by (rule class_loop_step)
    from all obtain s where mpre: "write_methods w clazz mpre (s1\<lparr>class_count := class_count s1 + 1\<rparr>) = Done s"
      and mpost: "write_methods w clazz mpost s = Done s3"
      by (auto simp: write_methods_append split: outcome.splits)
    from write_methods_extends [OF mpre]
    have b1: "extends (s1\<lparr>class_count := class_count s1 + 1\<rparr>) s"
      by simp
    have a1: "extends init_state s"
      by (rule extends_trans [OF extends_trans [OF e1 extends_class_count] b1])
    from write_methods_extends [OF mpre]
    have c: "class_count s = sum_list (map (key_count w) pre) + length kpre + 1"
      by (simp add: c1)
    from write_methods_extends [OF mpost] have b2: "extends s s3" by simp
    from class_loop_extends [OF rest] have b3: "extends s3 sf" by simp
    have a2: "extends s s'"
      by (rule extends_trans [OF extends_trans [OF b2 b3] e3])
    have "counters_agree (sum_list (map (key_count w) pre) + length kpre + 1) s"
      by (rule counters_agree_at [OF a1 a2 assms(2) c])
    with pre kpre mpre show ?thesis
      by blast
  qed
  have total: "counters_agree (sum_list (map (key_count w) ?yamls)) s'"
    using files [of ?yamls "[]"] whole by auto
  show ?thesis
  proof (intro conjI allI impI)
    show "counters_agree (sum_list (map (key_count w) ?yamls)) s'"
      by (rule total)
  next
    fix pre post
    assume "?yamls = pre @ post"
    from files [OF this]
    show "\<exists>s. file_loop w pre init_state = Done s \<and>
               counters_agree (sum_list (map (key_count w) pre)) s"
      by blast
  next
    fix pre f post kpre kpost
    assume h: "?yamls = pre @ f # post \<and> load w f = Inr (PDict (kpre @ kpost))"
    from keys [OF conjunct1 [OF h] conjunct2 [OF h]]
    show "\<exists>s0 s. file_loop w pre init_state = Done s0 \<and> class_loop w kpre s0 = Done s \<and>
                  counters_agree (sum_list (map (key_count w) pre) + length kpre) s"
      by blast
  next
    fix pre f post kpre clazz methods kpost mpre mpost
    assume h: "?yamls = pre @ f # post \<and>
               load w f = Inr (PDict (kpre @ (clazz, methods) # kpost)) \<and>
               py_iter methods = Inr (mpre @ mpost)"
    from methods [OF conjunct1 [OF h] conjunct1 [OF conjunct2 [OF h]] conjunct2 [OF conjunct2 [OF h]]]
    show "\<exists>s0 s1 s. file_loop w pre init_state = Done s0 \<and> class_loop w kpre s0 = Done s1 \<and>
                     write_methods w clazz mpre (s1\<lparr>class_count := class_count s1 + 1\<rparr>) = Done s \<and>
                     counters_agree (sum_list (map (key_count w) pre) + length kpre + 1) s"
      by blast
  qed
qed

theorem counters_track_progress_witness:
  "yaml_to_all_tests duplicate_world [''test-catalog/**/*.yaml''] ''combined-test-catalog.txt'' Map.empty =
     (Done \<lparr>class_count = 2, method_count = 2,
             written = [text_of ''Foo#a\<newline>'', text_of ''Foo#a\<newline>'']\<rparr>,
      [''combined-test-catalog.txt'' \<mapsto> text_of ''Foo#a\<newline>Foo#a\<newline>'']) \<and>
   line_count (text_of ''Foo#a\<newline>'') = 1 \<and>
   expand_globs duplicate_world [''test-catalog/**/*.yaml''] [] =
     [''test-catalog/core/tests.yaml''] @ ''test-catalog/clients/tests.yaml'' # [] \<and>
   load duplicate_world ''test-catalog/clients/tests.yaml'' =
     Inr (PDict ([] @ (PStr (text_of ''Foo''), PList [PStr (text_of ''a'')]) # [])) \<and>
   py_iter (PList [PStr (text_of ''a'')]) = Inr ([PStr (text_of ''a'')] @ []) \<and>
   counters_agree 2 \<lparr>class_count = 2, method_count = 2,
                       written = [text_of ''Foo#a\<newline>'', text_of ''Foo#a\<newline>'']\<rparr> \<and>
   (\<exists>s. file_loop duplicate_world [''test-catalog/core/tests.yaml''] init_state = Done s \<and>
        counters_agree 1 s) \<and>
   (\<exists>s0 s1 s. file_loop duplicate_world [''test-catalog/core/tests.yaml''] init_state = Done s0 \<and>
        class_loop duplicate_world [] s0 = Done s1 \<and>
        write_methods duplicate_world (PStr (text_of ''Foo'')) [PStr (text_of ''a'')]
          (s1\<lparr>class_count := class_count s1 + 1\<rparr>) = Done s \<and>
        counters_agree 2 s)"
proof -
  let ?S = "\<lparr>class_count = 2, method_count = 2,
             written = [text_of ''Foo#a\<newline>'', text_of ''Foo#a\<newline>'']\<rparr>"
  have h1: "yaml_to_all_tests duplicate_world [''test-catalog/**/*.yaml''] ''combined-test-catalog.txt'' Map.empty =
     (Done ?S, [''combined-test-catalog.txt'' \<mapsto> text_of ''Foo#a\<newline>Foo#a\<newline>''])"
    by (simp add: duplicate_world_def world_simps yaml_to_all_tests_def init_state_def)
  have l1: "line_count (text_of ''Foo#a\<newline>'') = 1"
    by (simp add: line_count_def text_of_def newline_def)
  have h2: "\<forall>l \<in> set (written ?S). line_count l = 1"
    by (simp add: l1)
  have e: "expand_globs duplicate_world [''test-catalog/**/*.yaml''] [] =
     [''test-catalog/core/tests.yaml''] @ ''test-catalog/clients/tests.yaml'' # []"
    by (simp add: duplicate_world_def files_world_def)
  have e2: "expand_globs duplicate_world [''test-catalog/**/*.yaml''] [] =
     [''test-catalog/core/tests.yaml''] @ [''test-catalog/clients/tests.yaml'']"
    by (simp add: duplicate_world_def files_world_def)
  have ld: "load duplicate_world ''test-catalog/clients/tests.yaml'' =
     Inr (PDict ([] @ (PStr (text_of ''Foo''), PList [PStr (text_of ''a'')]) # []))"
    by (simp add: duplicate_world_def files_world_def)
  have it: "py_iter (PList [PStr (text_of ''a'')]) = Inr ([PStr (text_of ''a'')] @ [])"
    by simp
  have k: "key_count duplicate_world ''test-catalog/core/tests.yaml'' = 1"
    "key_count duplicate_world ''test-catalog/clients/tests.yaml'' = 1"
    by (simp_all add: key_count_def duplicate_world_def files_world_def)
  note t = counters_track_progress [OF h1 h2]
  have total: "counters_agree 2 ?S"
    using conjunct1 [OF t, unfolded e2] by (simp add: k numeral_2_eq_2)
  have files: "\<exists>s. file_loop duplicate_world [''test-catalog/core/tests.yaml''] init_state = Done s \<and>
        counters_agree 1 s"
    using conjunct1 [OF conjunct2 [OF t], rule_format, OF e2] by (simp add: k)
  have methods: "\<exists>s0 s1 s. file_loop duplicate_world [''test-catalog/core/tests.yaml''] init_state = Done s0 \<and>
        class_loop duplicate_world [] s0 = Done s1 \<and>
        write_methods duplicate_world (PStr (text_of ''Foo'')) [PStr (text_of ''a'')]
          (s1\<lparr>class_count := class_count s1 + 1\<rparr>) = Done s \<and>
        counters_agree 2 s"
    using conjunct2 [OF conjunct2 [OF conjunct2 [OF t]], rule_format, OF conjI [OF e conjI [OF ld it]]]
    by (simp add: k numeral_2_eq_2)
  show ?thesis
    by (rule conjI [OF h1 conjI [OF l1 conjI [OF e conjI [OF ld conjI [OF it conjI [OF total conjI [OF files methods]]]]]]])
qed

subsection \<open>Empty inputs\<close>

text \<open>
  C8. When the output file can be opened and the patterns resolve to no file, the run
  completes with both counters zero, and the output file exists and is empty, whatever it
  held before.
\<close>

theorem no_files_empty_output:
  assumes "writable w out_file"
    and "expand_globs w glob_paths [] = []"
  shows "yaml_to_all_tests w glob_paths out_file fs =
           (Done \<lparr>class_count = 0, method_count = 0, written = []\<rparr>, fs(out_file \<mapsto> []))"
  using assms by (simp add: yaml_to_all_tests_def init_state_def)

theorem no_files_empty_output_witness:
  "writable no_match_world ''combined-test-catalog.txt'' \<and>
   expand_globs no_match_world [''test-catalog/**/*.yaml''] [] = [] \<and>
   yaml_to_all_tests no_match_world [''test-catalog/**/*.yaml''] ''combined-test-catalog.txt''
       [''combined-test-catalog.txt'' \<mapsto> text_of ''Old#line\<newline>''] =
     (Done \<lparr>class_count = 0, method_count = 0, written = []\<rparr>,
      [''combined-test-catalog.txt'' \<mapsto> []])"
proof -
  have h1: "writable no_match_world ''combined-test-catalog.txt''"
    by (simp add: no_match_world_def files_world_def)
  have h2: "expand_globs no_match_world [''test-catalog/**/*.yaml''] [] = []"
    by (simp add: no_match_world_def files_world_def)
  have r: "yaml_to_all_tests no_match_world [''test-catalog/**/*.yaml''] ''combined-test-catalog.txt''
       [''combined-test-catalog.txt'' \<mapsto> text_of ''Old#line\<newline>''] =
     (Done \<lparr>class_count = 0, method_count = 0, written = []\<rparr>,
      [''combined-test-catalog.txt'' \<mapsto> []])"
    using no_files_empty_output [OF h1 h2,
        of "[''combined-test-catalog.txt'' \<mapsto> text_of ''Old#line\<newline>'']"]
    by simp
  show ?thesis
    by (rule conjI [OF h1 conjI [OF h2 r]])
qed

lemma class_loop_empty_sequences:
  "\<forall>(k, v) \<in> set kvs. v = PList [] \<Longrightarrow>
   class_loop w kvs s = Done (s\<lparr>class_count := class_count s + length kvs\<rparr>)"
proof (induction kvs arbitrary: s)
  case Nil
  show ?case by simp
next
  case (Cons a kvs)
  obtain k v where a: "a = (k, v)" by (cases a)
  have v: "v = PList []" using Cons.prems by (simp add: a)
  have rest: "\<forall>(k, v) \<in> set kvs. v = PList []" using Cons.prems by simp
  show ?case by (simp add: a v Cons.IH [OF rest])
qed

text \<open>
  C9. A class key whose method sequence is empty adds one to the class counter and writes
  nothing. When the output file can be opened and the one resolved file is a catalog with
  at least one key, all of whose sequences are empty, the run completes with an empty
  output file and a class count that is the number of keys, which is not zero.
\<close>

theorem empty_sequence_counts_class:
  assumes "writable w out_file"
    and "expand_globs w glob_paths [] = [f]"
    and "load w f = Inr (PDict kvs)"
    and "kvs \<noteq> []"
    and "\<forall>(k, v) \<in> set kvs. v = PList []"
  shows "class_loop w ((clazz, PList []) # items) s =
           class_loop w items (s\<lparr>class_count := class_count s + 1\<rparr>) \<and>
         yaml_to_all_tests w glob_paths out_file fs =
           (Done \<lparr>class_count = length kvs, method_count = 0, written = []\<rparr>,
            fs(out_file \<mapsto> [])) \<and>
         0 < length kvs"
  using assms(1,4) class_loop_empty_sequences [OF assms(5), of w init_state]
  by (simp add: yaml_to_all_tests_def assms(2,3) init_state_def)

theorem empty_sequence_counts_class_witness:
  "writable empty_sequence_world ''combined-test-catalog.txt'' \<and>
   expand_globs empty_sequence_world [''test-catalog/**/*.yaml''] [] = [''test-catalog/core.yaml''] \<and>
   load empty_sequence_world ''test-catalog/core.yaml'' =
     Inr (PDict [(PStr (text_of ''Foo''), PList []), (PStr (text_of ''Bar''), PList [])]) \<and>
   [(PStr (text_of ''Foo''), PList []), (PStr (text_of ''Bar''), PList [])] \<noteq> [] \<and>
   map snd [(PStr (text_of ''Foo''), PList []), (PStr (text_of ''Bar''), PList [])] =
     [PList [], PList []] \<and>
   yaml_to_all_tests empty_sequence_world [''test-catalog/**/*.yaml''] ''combined-test-catalog.txt''
       Map.empty =
     (Done \<lparr>class_count = 2, method_count = 0, written = []\<rparr>,
      [''combined-test-catalog.txt'' \<mapsto> []])"
proof -
  have h1: "writable empty_sequence_world ''combined-test-catalog.txt''"
    by (simp add: empty_sequence_world_def files_world_def)
  have h2: "expand_globs empty_sequence_world [''test-catalog/**/*.yaml''] [] = [''test-catalog/core.yaml'']"
    by (simp add: empty_sequence_world_def files_world_def)
  have h3: "load empty_sequence_world ''test-catalog/core.yaml'' =
     Inr (PDict [(PStr (text_of ''Foo''), PList []), (PStr (text_of ''Bar''), PList [])])"
    by (simp add: empty_sequence_world_def files_world_def)
  have h4: "[(PStr (text_of ''Foo''), PList []), (PStr (text_of ''Bar''), PList [])] \<noteq> []"
    by simp
  have h5: "\<forall>(k, v) \<in> set [(PStr (text_of ''Foo''), PList []), (PStr (text_of ''Bar''), PList [])].
      v = PList []"
    by simp
  have m: "map snd [(PStr (text_of ''Foo''), PList []), (PStr (text_of ''Bar''), PList [])] =
     [PList [], PList []]"
    by simp
  have r: "yaml_to_all_tests empty_sequence_world [''test-catalog/**/*.yaml''] ''combined-test-catalog.txt''
       Map.empty =
     (Done \<lparr>class_count = 2, method_count = 0, written = []\<rparr>,
      [''combined-test-catalog.txt'' \<mapsto> []])"
    using empty_sequence_counts_class [OF h1 h2 h3 h4 h5, of PNone "[]" init_state Map.empty]
    by simp
  show ?thesis
    by (rule conjI [OF h1 conjI [OF h2 conjI [OF h3 conjI [OF h4 conjI [OF m r]]]]])
qed

text \<open>
  C10. A resolved file that is an empty YAML document parses to \<open>None\<close>, which has no
  \<open>items\<close>: processing it raises \<open>AttributeError\<close> with nothing written for it, and a
  run whose resolved files include it aborts with an error.
\<close>

theorem null_document_aborts:
  assumes "f \<in> set (expand_globs w glob_paths [])"
    and "load w f = Inr PNone"
  shows "file_loop w (f # yamls) s = Raised AttributeError s \<and>
         (\<exists>e s'. fst (yaml_to_all_tests w glob_paths out_file fs) = Raised e s')"
proof -
  have "(\<exists>e. load w f = Inl e) \<or> (\<exists>v. load w f = Inr v \<and> raising_shape v)"
    by (simp add: assms(2))
  from file_loop_raises [OF assms(1) this, of init_state]
  show ?thesis by (auto simp: yaml_to_all_tests_def assms(2))
qed

theorem null_document_aborts_witness:
  "''test-catalog/empty.yaml'' \<in> set (expand_globs null_world [''test-catalog/**/*.yaml''] []) \<and>
   load null_world ''test-catalog/empty.yaml'' = Inr PNone \<and>
   yaml_to_all_tests null_world [''test-catalog/**/*.yaml''] ''combined-test-catalog.txt'' Map.empty =
     (Raised AttributeError \<lparr>class_count = 0, method_count = 0, written = []\<rparr>,
      [''combined-test-catalog.txt'' \<mapsto> []])"
proof -
  have h1: "''test-catalog/empty.yaml'' \<in> set (expand_globs null_world [''test-catalog/**/*.yaml''] [])"
    by (simp add: null_world_def files_world_def)
  have h2: "load null_world ''test-catalog/empty.yaml'' = Inr PNone"
    by (simp add: null_world_def files_world_def)
  have g: "glob null_world ''test-catalog/**/*.yaml'' = [''test-catalog/empty.yaml'']"
    by (simp add: null_world_def files_world_def)
  have w: "writable null_world ''combined-test-catalog.txt''"
    by (simp add: null_world_def files_world_def)
  have r: "yaml_to_all_tests null_world [''test-catalog/**/*.yaml''] ''combined-test-catalog.txt'' Map.empty =
     (Raised AttributeError \<lparr>class_count = 0, method_count = 0, written = []\<rparr>,
      [''combined-test-catalog.txt'' \<mapsto> []])"
    using null_document_aborts [OF h1 h2, of "[]" init_state "''combined-test-catalog.txt''" Map.empty]
    by (simp add: run_writable [OF w] g h2 init_state_def)
  show ?thesis
    by (rule conjI [OF h1 conjI [OF h2 r]])
qed

end
